theory Spec2Isabelle
  imports Main "HOL-Library.Word" "HOL-Library.Sublist"
begin

section \<open>Strings\<close>

text \<open>
  A JavaScript string is a sequence of UTF-16 code units: \<open>length\<close>, \<open>startsWith\<close>,
  \<open>substring\<close> and \<open>trim\<close> all work on code units. \<open>js\<close> writes an ASCII literal.
\<close>

type_synonym jsstring = "16 word list"

definition js :: "string \<Rightarrow> jsstring" where
  "js cs = map (\<lambda>c. of_nat (of_char c)) cs"

text \<open>
  \<open>String.prototype.trim\<close> removes the ECMAScript WhiteSpace and LineTerminator code
  units from both ends.
\<close>

definition isWhiteSpace :: "16 word \<Rightarrow> bool" where
  "isWhiteSpace c \<longleftrightarrow>
     c = 0x9 \<or> c = 0xA \<or> c = 0xB \<or> c = 0xC \<or> c = 0xD \<or> c = 0x20 \<or> c = 0xA0 \<or>
     c = 0x1680 \<or> (0x2000 \<le> c \<and> c \<le> 0x200A) \<or> c = 0x2028 \<or> c = 0x2029 \<or>
     c = 0x202F \<or> c = 0x205F \<or> c = 0x3000 \<or> c = 0xFEFF"

definition trim :: "jsstring \<Rightarrow> jsstring" where
  "trim s = rev (dropWhile isWhiteSpace (rev (dropWhile isWhiteSpace s)))"

text \<open>\<open>Array.prototype.join(' ')\<close> on an array of strings.\<close>

fun join_space :: "jsstring list \<Rightarrow> jsstring" where
  "join_space [] = []"
| "join_space [x] = x"
| "join_space (x # y # ys) = x @ [0x20] @ join_space (y # ys)"

section \<open>Data model\<close>

text \<open>\<open>TranscriptChunk\<close> of the types module: \<open>{ timestamp: number; text: string }\<close>.
  The timestamp is always a value of the one-per-second counter, a natural number.\<close>

record TranscriptChunk =
  timestamp :: nat
  ctext :: jsstring

text \<open>\<open>RecordingResult\<close> of the recorder component.\<close>

record RecordingResult =
  r_startTime :: jsstring
  r_endTime :: jsstring
  duration :: nat
  r_text :: jsstring
  chunks :: "TranscriptChunk list"

text \<open>The part of a \<open>LiveServerMessage\<close> that \<open>onmessage\<close> reads:
  \<open>serverContent?.inputTranscription?.text\<close> and \<open>serverContent?.turnComplete\<close>.\<close>

record message =
  inputTranscription :: "jsstring option"
  turnComplete :: bool

text \<open>State of one streaming connection, as the transport sees it.\<close>

datatype conn_state = Connecting | Open | Closed | Errored

text \<open>
  The recorder component together with the browser objects it creates. The first group
  are the React state variables, the second the refs of the component (a ref holding
  \<open>null\<close> is \<open>None\<close>; an object is named by a number), the third the browser side: which
  of the created objects are still live, the state of every connection, the calls
  suspended on \<open>getUserMedia\<close>, the session captured by each processor, and the log of
  \<open>sendRealtimeInput\<close> calls (the session each frame was sent to). The level-meter preview (\<open>startPreview\<close>, \<open>stopPreview\<close>) has
  its own stream and context and touches none of these fields; it is left out.
\<close>

record recorder =
  isRecording :: bool
  transcript :: jsstring
  elapsedTime :: nat
  error :: "jsstring option"
  startTime :: "jsstring option"

  chunksRef :: "TranscriptChunk list"
  currentTurnRef :: jsstring
  turnStartTimeRef :: nat
  isTurnActiveRef :: bool
  elapsedTimeRef :: nat
  streamRef :: "nat option"
  audioContextRef :: "nat option"
  processorRef :: "nat option"
  sourceRef :: "nat option"
  sessionRef :: "nat option"
  timerRef :: "nat option"

  ctxOpen :: "nat set"
  tracksLive :: "nat set"
  srcConnected :: "nat set"
  procConnected :: "nat set"
  timersActive :: "nat set"
  conn :: "nat \<rightharpoonup> conn_state"
  awaitingMedia :: "nat set"
  procSession :: "nat \<rightharpoonup> nat"
  sent :: "nat list"
  nextId :: nat

section \<open>The recorder component\<close>

text \<open>
  \<open>stopEverything\<close>, the cleanup function. Each ref that is set is released and set to
  \<open>null\<close>, in the order of the source; the session ref is only set to \<open>null\<close>: no method
  of the session is called, so the state of its connection is not touched. A timer
  handle is a positive number, so a set \<open>timerRef\<close> is always truthy.
\<close>

definition stopEverything :: "recorder \<Rightarrow> recorder" where
  "stopEverything s =
     (let s1 = (case processorRef s of None \<Rightarrow> s
                | Some p \<Rightarrow> s\<lparr>procConnected := procConnected s - {p}, processorRef := None\<rparr>);
          s2 = (case sourceRef s1 of None \<Rightarrow> s1
                | Some x \<Rightarrow> s1\<lparr>srcConnected := srcConnected s1 - {x}, sourceRef := None\<rparr>);
          s3 = (case audioContextRef s2 of None \<Rightarrow> s2
                | Some c \<Rightarrow> s2\<lparr>ctxOpen := ctxOpen s2 - {c}, audioContextRef := None\<rparr>);
          s4 = (case streamRef s3 of None \<Rightarrow> s3
                | Some m \<Rightarrow> s3\<lparr>tracksLive := tracksLive s3 - {m}, streamRef := None\<rparr>);
          s5 = (case sessionRef s4 of None \<Rightarrow> s4
                | Some k \<Rightarrow> s4\<lparr>sessionRef := None\<rparr>);
          s6 = (case timerRef s5 of None \<Rightarrow> s5
                | Some t \<Rightarrow> s5\<lparr>timersActive := timersActive s5 - {t}, timerRef := None\<rparr>)
      in s6\<lparr>isRecording := False\<rparr>)"

text \<open>
  \<open>startRecording\<close> up to its \<open>await\<close>. \<open>now\<close> is the clock reading, \<open>hasKey\<close> whether
  \<open>process.env.API_KEY\<close> is set. Without a key the \<open>catch\<close> block runs at once. With a key
  a new audio context is created and stored, and the call is suspended on
  \<open>getUserMedia\<close>, remembered by the context it holds.
\<close>

definition startRecording :: "jsstring \<Rightarrow> bool \<Rightarrow> recorder \<Rightarrow> recorder" where
  "startRecording now hasKey s =
     (let s1 = s\<lparr>error := None, transcript := [], elapsedTime := 0, elapsedTimeRef := 0,
                 startTime := Some now, chunksRef := [], currentTurnRef := [],
                 isTurnActiveRef := False, turnStartTimeRef := 0\<rparr>
      in if \<not> hasKey then stopEverything (s1\<lparr>error := Some (js ''API Key not found'')\<rparr>)
         else let c = nextId s1
              in s1\<lparr>audioContextRef := Some c, ctxOpen := insert c (ctxOpen s1),
                    awaitingMedia := insert c (awaitingMedia s1), nextId := Suc c\<rparr>)"

text \<open>
  \<open>startRecording\<close> after \<open>getUserMedia\<close> resolved, in the call that holds context \<open>c\<close>:
  the stream \<open>m\<close> is stored and \<open>ai.live.connect\<close> starts connection \<open>k\<close>.
\<close>

definition startRecording_granted :: "nat \<Rightarrow> recorder \<Rightarrow> recorder" where
  "startRecording_granted c s =
     (let m = nextId s; k = Suc m
      in s\<lparr>awaitingMedia := awaitingMedia s - {c}, streamRef := Some m,
            tracksLive := insert m (tracksLive s), conn := (conn s)(k \<mapsto> Connecting),
            nextId := Suc k\<rparr>)"

text \<open>\<open>startRecording\<close> when \<open>getUserMedia\<close> rejected with message \<open>msg\<close>: the \<open>catch\<close> block
  (\<open>err.message || "Could not start recording"\<close>).\<close>

definition startRecording_denied :: "nat \<Rightarrow> jsstring \<Rightarrow> recorder \<Rightarrow> recorder" where
  "startRecording_denied c msg s =
     stopEverything (s\<lparr>awaitingMedia := awaitingMedia s - {c},
        error := Some (if msg \<noteq> [] then msg else js ''Could not start recording'')\<rparr>)"

text \<open>
  The \<open>onopen\<close> callback of connection \<open>k\<close>: the timer \<open>t\<close>, the source \<open>x\<close> and the
  processor \<open>p\<close> are created here and nowhere else; the processor's \<open>onaudioprocess\<close>
  captures the session.
\<close>

definition onopen :: "nat \<Rightarrow> recorder \<Rightarrow> recorder" where
  "onopen k s =
     (let t = nextId s; x = Suc t; p = Suc x
      in s\<lparr>isRecording := True,
            timerRef := Some t, timersActive := insert t (timersActive s),
            sourceRef := Some x, processorRef := Some p,
            procSession := (procSession s)(p \<mapsto> k),
            srcConnected := insert x (srcConnected s),
            procConnected := insert p (procConnected s),
            nextId := Suc p\<rparr>)"

text \<open>The interval callback: both the state variable and the ref are incremented.\<close>

definition tick :: "recorder \<Rightarrow> recorder" where
  "tick s = s\<lparr>elapsedTime := elapsedTime s + 1, elapsedTimeRef := elapsedTimeRef s + 1\<rparr>"

text \<open>
  \<open>onaudioprocess\<close> of a processor whose closure holds session \<open>k\<close>: the frame is encoded
  and handed to \<open>sendRealtimeInput\<close>. The session promise resolves in the same task as
  \<open>onopen\<close>, before any audio event, so its continuation runs with the frame.
\<close>

definition onaudioprocess :: "nat \<Rightarrow> recorder \<Rightarrow> recorder" where
  "onaudioprocess k s = s\<lparr>sessionRef := Some k, sent := sent s @ [k]\<rparr>"

text \<open>\<open>onmessage\<close>, first block: a partial transcription. An absent or empty text is
  falsy and skipped.\<close>

definition dedup :: "TranscriptChunk list \<Rightarrow> jsstring \<Rightarrow> jsstring" where
  "dedup cs txt =
     (if length cs > 0 then
        (let lastChunk = last cs
         in if length (ctext lastChunk) > 5 \<and> prefix (ctext lastChunk) txt
            then drop (length (ctext lastChunk)) txt else txt)
      else txt)"

definition onmessage_text :: "message \<Rightarrow> recorder \<Rightarrow> recorder" where
  "onmessage_text msg s =
     (case inputTranscription msg of
        None \<Rightarrow> s
      | Some txt \<Rightarrow>
          if txt = [] then s
          else if \<not> isTurnActiveRef s
          then s\<lparr>isTurnActiveRef := True, turnStartTimeRef := elapsedTimeRef s,
                 currentTurnRef := currentTurnRef s @ dedup (chunksRef s) txt\<rparr>
          else s\<lparr>currentTurnRef := currentTurnRef s @ txt\<rparr>)"

text \<open>\<open>onmessage\<close>, second block: turn complete.\<close>

definition onmessage_turnComplete :: "message \<Rightarrow> recorder \<Rightarrow> recorder" where
  "onmessage_turnComplete msg s =
     (if turnComplete msg then
        (let s1 = (if trim (currentTurnRef s) \<noteq> []
                   then s\<lparr>chunksRef := chunksRef s @
                          [\<lparr>timestamp = turnStartTimeRef s, ctext = trim (currentTurnRef s)\<rparr>]\<rparr>
                   else s)
         in s1\<lparr>currentTurnRef := [], isTurnActiveRef := False\<rparr>)
      else s)"

text \<open>\<open>onmessage\<close>, third block: the displayed transcript is recomputed when either of
  the first two blocks did something.\<close>

definition needsUpdate :: "message \<Rightarrow> bool" where
  "needsUpdate msg \<longleftrightarrow>
     (case inputTranscription msg of None \<Rightarrow> False | Some txt \<Rightarrow> txt \<noteq> []) \<or> turnComplete msg"

definition fullText :: "recorder \<Rightarrow> jsstring" where
  "fullText s =
     (let committedText = join_space (map ctext (chunksRef s));
          currentText = currentTurnRef s
      in committedText @ (if committedText \<noteq> [] \<and> currentText \<noteq> [] then [0x20] else [])
           @ currentText)"

definition onmessage :: "message \<Rightarrow> recorder \<Rightarrow> recorder" where
  "onmessage msg s =
     (let s2 = onmessage_turnComplete msg (onmessage_text msg s)
      in if needsUpdate msg then s2\<lparr>transcript := fullText s2\<rparr> else s2)"

text \<open>\<open>onclose\<close> and \<open>onerror\<close>. The error is an \<open>Error\<close> object with a message, or not.\<close>

definition onclose :: "recorder \<Rightarrow> recorder" where
  "onclose s = s\<lparr>isRecording := False\<rparr>"

definition onerror :: "jsstring option \<Rightarrow> recorder \<Rightarrow> recorder" where
  "onerror e s =
     stopEverything (s\<lparr>error := Some (case e of Some m \<Rightarrow> m
                                        | None \<Rightarrow> js ''Connection error. Please try again.'')\<rparr>)"

definition toggleRecording :: "jsstring \<Rightarrow> bool \<Rightarrow> recorder \<Rightarrow> recorder" where
  "toggleRecording now hasKey s =
     (if isRecording s then stopEverything s else startRecording now hasKey s)"

text \<open>
  \<open>handleFinish\<close>. \<open>confirmed\<close> is the answer to the \<open>confirm\<close> dialog, asked only when no
  chunk exists; without a result \<open>onFinish\<close> is not called. \<open>a || b\<close> on numbers yields \<open>b\<close>
  when \<open>a\<close> is \<open>0\<close>, on strings when \<open>a\<close> is empty or \<open>null\<close>.
\<close>

definition handleFinish :: "jsstring \<Rightarrow> bool \<Rightarrow> recorder \<Rightarrow> recorder \<times> RecordingResult option" where
  "handleFinish now confirmed s =
     (let s1 = (if isRecording s then stopEverything s else s);
          s2 = (if trim (currentTurnRef s1) \<noteq> []
                then s1\<lparr>chunksRef := chunksRef s1 @
                       [\<lparr>timestamp = (if turnStartTimeRef s1 \<noteq> 0 then turnStartTimeRef s1
                                        else elapsedTimeRef s1),
                         ctext = trim (currentTurnRef s1)\<rparr>]\<rparr>
                else s1)
      in if length (chunksRef s2) = 0 \<and> \<not> confirmed then (s2, None)
         else (s2, Some \<lparr>r_startTime = (case startTime s of None \<Rightarrow> now
                                          | Some t \<Rightarrow> if t \<noteq> [] then t else now),
                         r_endTime = now,
                         duration = elapsedTime s,
                         r_text = join_space (map ctext (chunksRef s2)),
                         chunks = chunksRef s2\<rparr>))"

section \<open>Events\<close>

text \<open>
  Everything runs on one thread, one callback at a time. An event is a click, the
  unmount of the component (which is also what the parent does on Cancel and after
  \<open>onFinish\<close>), or a callback of the browser: \<open>getUserMedia\<close> settling for a suspended
  call, a connection opening, delivering a message, closing or failing, a timer
  firing, an audio buffer arriving at a processor. The browser calls a callback only
  when the object it belongs to is in the state for it; otherwise nothing happens.
\<close>

datatype event =
    ClickMic jsstring bool
  | ClickFinish jsstring bool
  | Unmount
  | MediaGranted nat
  | MediaDenied nat jsstring
  | ConnOpen nat
  | ConnMessage nat message
  | ConnClose nat
  | ConnError nat "jsstring option"
  | TimerFired nat
  | AudioFrame nat

definition live :: "recorder \<Rightarrow> nat \<Rightarrow> bool" where
  "live s k \<longleftrightarrow> conn s k = Some Connecting \<or> conn s k = Some Open"

fun step :: "event \<Rightarrow> recorder \<Rightarrow> recorder" where
  "step (ClickMic now hasKey) s = toggleRecording now hasKey s"
| "step (ClickFinish now confirmed) s = fst (handleFinish now confirmed s)"
| "step Unmount s = stopEverything s"
| "step (MediaGranted c) s =
     (if c \<in> awaitingMedia s then startRecording_granted c s else s)"
| "step (MediaDenied c msg) s =
     (if c \<in> awaitingMedia s then startRecording_denied c msg s else s)"
| "step (ConnOpen k) s =
     (if conn s k = Some Connecting then onopen k (s\<lparr>conn := (conn s)(k \<mapsto> Open)\<rparr>) else s)"
| "step (ConnMessage k msg) s =
     (if conn s k = Some Open then onmessage msg s else s)"
| "step (ConnClose k) s =
     (if live s k then onclose (s\<lparr>conn := (conn s)(k \<mapsto> Closed)\<rparr>) else s)"
| "step (ConnError k e) s =
     (if live s k then onerror e (s\<lparr>conn := (conn s)(k \<mapsto> Errored)\<rparr>) else s)"
| "step (TimerFired t) s = (if t \<in> timersActive s then tick s else s)"
| "step (AudioFrame p) s =
     (if p \<in> procConnected s
      then (case procSession s p of None \<Rightarrow> s | Some k \<Rightarrow> onaudioprocess k s)
      else s)"

fun run :: "event list \<Rightarrow> recorder \<Rightarrow> recorder" where
  "run [] s = s"
| "run (e # es) s = run es (step e s)"

text \<open>The component as mounted: nothing created yet. Object names start at 1.\<close>

definition initial :: recorder where
  "initial =
     \<lparr>isRecording = False, transcript = [], elapsedTime = 0, error = None, startTime = None,
      chunksRef = [], currentTurnRef = [], turnStartTimeRef = 0, isTurnActiveRef = False,
      elapsedTimeRef = 0, streamRef = None, audioContextRef = None, processorRef = None,
      sourceRef = None, sessionRef = None, timerRef = None,
      ctxOpen = {}, tracksLive = {}, srcConnected = {}, procConnected = {},
      timersActive = {}, conn = Map.empty, awaitingMedia = {}, procSession = Map.empty,
      sent = [], nextId = 1\<rparr>"

text \<open>
  A click on the microphone button while not recording starts a new session (the
  chunks, the buffer and the counters are reset); every other event belongs to the
  session that is running.
\<close>

definition starts_session :: "event \<Rightarrow> recorder \<Rightarrow> bool" where
  "starts_session e s \<longleftrightarrow> (case e of ClickMic now hasKey \<Rightarrow> \<not> isRecording s | _ \<Rightarrow> False)"

fun one_session :: "recorder \<Rightarrow> event list \<Rightarrow> bool" where
  "one_session s [] = True"
| "one_session s (e # es) = (\<not> starts_session e s \<and> one_session (step e s) es)"

section \<open>States and runs the properties speak about\<close>

text \<open>
  The controller is stopped when every media and session ref is \<open>null\<close> and
  \<open>isRecording\<close> is false. \<open>releases s t\<close>: every object a ref of \<open>s\<close> names is
  released in \<open>t\<close> (processor and source disconnected, context closed, tracks stopped,
  interval cleared). \<open>tracked s\<close>: no object is live but those the refs name.
  \<open>no_open_handles s\<close>: no audio object and no timer is live at all.
\<close>

definition stopped :: "recorder \<Rightarrow> bool" where
  "stopped s \<longleftrightarrow>
     processorRef s = None \<and> sourceRef s = None \<and> audioContextRef s = None \<and>
     streamRef s = None \<and> sessionRef s = None \<and> timerRef s = None \<and> \<not> isRecording s"

definition releases :: "recorder \<Rightarrow> recorder \<Rightarrow> bool" where
  "releases s t \<longleftrightarrow>
     (\<forall>p \<in> set_option (processorRef s). p \<notin> procConnected t) \<and>
     (\<forall>x \<in> set_option (sourceRef s). x \<notin> srcConnected t) \<and>
     (\<forall>c \<in> set_option (audioContextRef s). c \<notin> ctxOpen t) \<and>
     (\<forall>m \<in> set_option (streamRef s). m \<notin> tracksLive t) \<and>
     (\<forall>i \<in> set_option (timerRef s). i \<notin> timersActive t)"

definition tracked :: "recorder \<Rightarrow> bool" where
  "tracked s \<longleftrightarrow>
     procConnected s \<subseteq> set_option (processorRef s) \<and>
     srcConnected s \<subseteq> set_option (sourceRef s) \<and>
     ctxOpen s \<subseteq> set_option (audioContextRef s) \<and>
     tracksLive s \<subseteq> set_option (streamRef s) \<and>
     timersActive s \<subseteq> set_option (timerRef s)"

definition no_open_handles :: "recorder \<Rightarrow> bool" where
  "no_open_handles s \<longleftrightarrow>
     procConnected s = {} \<and> srcConnected s = {} \<and> ctxOpen s = {} \<and> tracksLive s = {} \<and>
     timersActive s = {}"

text \<open>
  Runs used as concrete inputs. After \<open>opened\<close> the session is recording: context 1,
  stream 2, connection 3, timer 4, source 5, processor 6.
\<close>

definition opened :: "event list" where
  "opened = [ClickMic (js ''2025-01-01T10:00:00.000Z'') True, MediaGranted 1, ConnOpen 3]"

definition concluding :: "event list" where
  "concluding = opened @
     [ConnMessage 3 \<lparr>inputTranscription = Some (js ''and that concludes''),
                     turnComplete = False\<rparr>]
     @ replicate 7 (TimerFired 4)"

definition two_turns :: "event list" where
  "two_turns =
     [TimerFired 4,
      ConnMessage 3 \<lparr>inputTranscription = Some (js ''Hello ''), turnComplete = False\<rparr>,
      ConnMessage 3 \<lparr>inputTranscription = Some (js ''world''), turnComplete = False\<rparr>,
      TimerFired 4,
      ConnMessage 3 \<lparr>inputTranscription = None, turnComplete = True\<rparr>]"

definition open_turn_then_finish :: "event list" where
  "open_turn_then_finish =
     [TimerFired 4,
      ConnMessage 3 \<lparr>inputTranscription = Some (js ''Next point''), turnComplete = False\<rparr>,
      ClickFinish (js ''2025-01-01T10:00:03.000Z'') False]"

definition lecture :: "event list" where
  "lecture = opened @ replicate 3 (TimerFired 4) @
     [ConnMessage 3 \<lparr>inputTranscription = Some (js ''Hello world''), turnComplete = True\<rparr>]
     @ replicate 122 (TimerFired 4)"

definition one_turn_open :: "event list" where
  "one_turn_open = [MediaGranted 1, ConnOpen 3] @ two_turns @
     [TimerFired 4,
      ConnMessage 3 \<lparr>inputTranscription = Some (js ''Next point''), turnComplete = False\<rparr>]"

definition frames_around_open :: "event list" where
  "frames_around_open =
     [AudioFrame 6, ClickMic (js ''2025-01-01T10:00:00.000Z'') True, AudioFrame 6,
      MediaGranted 1, AudioFrame 6, ConnOpen 3, AudioFrame 6, AudioFrame 6]"

definition restart_after_remote_close :: "event list" where
  "restart_after_remote_close = opened @
     [ConnClose 3, ClickMic (js ''2025-01-01T10:00:09.000Z'') True, MediaGranted 7,
      ConnOpen 9, Unmount]"

text \<open>
  Two recordings begun one over the other. In \<open>restarted\<close> the remote side closes
  connection 3 and the button starts a second recording (context 7, stream 8,
  connection 9, timer 10, source 11, processor 12). In \<open>double_click_open\<close> the button is
  clicked twice before anything has opened (contexts 1 and 2); the first call gets
  stream 3 and connection 4, the second stream 5 and connection 6; connection 4 opens
  (timer 7, source 8, processor 9) and a turn is committed.
\<close>

definition restarted :: "event list" where
  "restarted = opened @
     [ConnClose 3, ClickMic (js ''2025-01-01T10:00:09.000Z'') True, MediaGranted 7,
      ConnOpen 9]"

definition double_click_open :: "event list" where
  "double_click_open =
     [ClickMic (js ''2025-01-01T10:00:00.000Z'') True,
      ClickMic (js ''2025-01-01T10:00:00.200Z'') True,
      MediaGranted 1, MediaGranted 2, ConnOpen 4,
      ConnMessage 4 \<lparr>inputTranscription = Some (js ''Hello world''), turnComplete = True\<rparr>]"

definition cancel_while_connecting :: "event list" where
  "cancel_while_connecting =
     [ClickMic (js ''2025-01-01T10:00:00.000Z'') True, Unmount, MediaGranted 1]"

definition late_turn_complete :: "event list" where
  "late_turn_complete = concluding @
     [ClickFinish (js ''2025-01-01T10:00:07.000Z'') False,
      ConnMessage 3 \<lparr>inputTranscription = None, turnComplete = True\<rparr>]"

text \<open>
  A session ends when \<open>handleFinish\<close> hands its result to \<open>onFinish\<close>. \<open>until_finish s es\<close>:
  no event of the run \<open>es\<close> from \<open>s\<close> does that (a click on Finish that is declined in
  the \<open>confirm\<close> dialog hands nothing over).
\<close>

definition hands_off :: "event \<Rightarrow> recorder \<Rightarrow> bool" where
  "hands_off e s \<longleftrightarrow>
     (case e of ClickFinish now confirmed \<Rightarrow> snd (handleFinish now confirmed s) \<noteq> None
      | _ \<Rightarrow> False)"

fun until_finish :: "recorder \<Rightarrow> event list \<Rightarrow> bool" where
  "until_finish s [] = True"
| "until_finish s (e # es) = (\<not> hands_off e s \<and> until_finish (step e s) es)"

text \<open>
  The order of the chunks' timestamps, with what keeps it: no chunk is later than the
  start of the current turn, which is not later than the counter.
\<close>

definition timestamps_ordered :: "recorder \<Rightarrow> bool" where
  "timestamps_ordered s \<longleftrightarrow>
     sorted (map timestamp (chunksRef s)) \<and>
     (\<forall>c \<in> set (chunksRef s). timestamp c \<le> turnStartTimeRef s) \<and>
     turnStartTimeRef s \<le> elapsedTimeRef s"

text \<open>
  Counting frames. \<open>sent_to s k\<close> is the number of \<open>sendRealtimeInput\<close> calls made on
  session \<open>k\<close>; \<open>frames_after_open k b s es\<close> the number of audio buffers that arrive in
  the run \<open>es\<close> from \<open>s\<close> after connection \<open>k\<close> went from connecting to open (\<open>b\<close>: it
  did so before the run).
\<close>

definition sent_to :: "recorder \<Rightarrow> nat \<Rightarrow> nat" where
  "sent_to s k = count_list (sent s) k"

definition is_frame :: "event \<Rightarrow> bool" where
  "is_frame e \<longleftrightarrow> (case e of AudioFrame p \<Rightarrow> True | _ \<Rightarrow> False)"

definition opens :: "event \<Rightarrow> bool" where
  "opens e \<longleftrightarrow> (case e of ConnOpen k \<Rightarrow> True | _ \<Rightarrow> False)"

fun frames_after_open :: "nat \<Rightarrow> bool \<Rightarrow> recorder \<Rightarrow> event list \<Rightarrow> nat" where
  "frames_after_open k b s [] = 0"
| "frames_after_open k b s (e # es) =
     (if is_frame e \<and> b then 1 else 0)
       + frames_after_open k (b \<or> (e = ConnOpen k \<and> conn s k = Some Connecting)) (step e s) es"

section \<open>What the handlers leave alone\<close>

lemma stopEverything_data [simp]:
  "chunksRef (stopEverything s) = chunksRef s"
  "currentTurnRef (stopEverything s) = currentTurnRef s"
  "turnStartTimeRef (stopEverything s) = turnStartTimeRef s"
  "isTurnActiveRef (stopEverything s) = isTurnActiveRef s"
  "elapsedTimeRef (stopEverything s) = elapsedTimeRef s"
  "elapsedTime (stopEverything s) = elapsedTime s"
  "startTime (stopEverything s) = startTime s"
  "transcript (stopEverything s) = transcript s"
  by (simp_all add: stopEverything_def Let_def split: option.splits)

lemma onmessage_text_chunks [simp]: "chunksRef (onmessage_text msg s) = chunksRef s"
  by (simp add: onmessage_text_def split: option.splits)

lemma stopEverything_refs [simp]:
  "processorRef (stopEverything s) = None"
  "sourceRef (stopEverything s) = None"
  "audioContextRef (stopEverything s) = None"
  "streamRef (stopEverything s) = None"
  "sessionRef (stopEverything s) = None"
  "timerRef (stopEverything s) = None"
  "isRecording (stopEverything s) = False"
  by (simp_all add: stopEverything_def Let_def split: option.splits)

lemma stopEverything_browser [simp]:
  "procConnected (stopEverything s) = procConnected s - set_option (processorRef s)"
  "srcConnected (stopEverything s) = srcConnected s - set_option (sourceRef s)"
  "ctxOpen (stopEverything s) = ctxOpen s - set_option (audioContextRef s)"
  "tracksLive (stopEverything s) = tracksLive s - set_option (streamRef s)"
  "timersActive (stopEverything s) = timersActive s - set_option (timerRef s)"
  "conn (stopEverything s) = conn s"
  "awaitingMedia (stopEverything s) = awaitingMedia s"
  "procSession (stopEverything s) = procSession s"
  "sent (stopEverything s) = sent s"
  "nextId (stopEverything s) = nextId s"
  "error (stopEverything s) = error s"
  by (simp_all add: stopEverything_def Let_def split: option.splits)

lemma stopEverything_stopped: "stopped (stopEverything s)"
  by (simp add: stopped_def)

lemma stopEverything_noop: "stopped s \<Longrightarrow> stopEverything s = s"
  by (simp add: stopped_def stopEverything_def)

lemma stopEverything_releases: "releases s (stopEverything s)"
  by (auto simp add: releases_def)

lemma stopEverything_tracked: "tracked s \<Longrightarrow> no_open_handles (stopEverything s)"
  by (auto simp add: tracked_def no_open_handles_def)

lemma handleFinish_chunks:
  "chunksRef (fst (handleFinish now confirmed s)) =
     chunksRef s @
       (if trim (currentTurnRef s) \<noteq> []
        then [\<lparr>timestamp = (if turnStartTimeRef s \<noteq> 0 then turnStartTimeRef s
                            else elapsedTimeRef s),
               ctext = trim (currentTurnRef s)\<rparr>]
        else [])"
  by (simp add: handleFinish_def Let_def)

lemma handleFinish_result:
  "snd (handleFinish now confirmed s) = Some r \<Longrightarrow>
     duration r = elapsedTime s \<and> chunks r = chunksRef (fst (handleFinish now confirmed s))"
  by (auto simp add: handleFinish_def Let_def split: if_splits)

lemma handleFinish_data [simp]:
  "currentTurnRef (fst (handleFinish now confirmed s)) = currentTurnRef s"
  "turnStartTimeRef (fst (handleFinish now confirmed s)) = turnStartTimeRef s"
  "isTurnActiveRef (fst (handleFinish now confirmed s)) = isTurnActiveRef s"
  "elapsedTimeRef (fst (handleFinish now confirmed s)) = elapsedTimeRef s"
  "elapsedTime (fst (handleFinish now confirmed s)) = elapsedTime s"
  by (simp_all add: handleFinish_def Let_def)

lemma onmessage_elapsed [simp]:
  "elapsedTimeRef (onmessage msg s) = elapsedTimeRef s"
  "elapsedTime (onmessage msg s) = elapsedTime s"
  by (simp_all add: onmessage_def onmessage_text_def onmessage_turnComplete_def Let_def
        split: option.splits)

lemma onmessage_chunks:
  "chunksRef (onmessage msg s) =
     chunksRef s @
       (if turnComplete msg \<and> trim (currentTurnRef (onmessage_text msg s)) \<noteq> []
        then [\<lparr>timestamp = turnStartTimeRef (onmessage_text msg s),
               ctext = trim (currentTurnRef (onmessage_text msg s))\<rparr>]
        else [])"
  by (simp add: onmessage_def onmessage_turnComplete_def Let_def)

lemma run_append: "run (es1 @ es2) s = run es2 (run es1 s)"
  by (induction es1 arbitrary: s) simp_all

lemma one_session_append:
  "one_session s (es1 @ es2) \<longleftrightarrow> one_session s es1 \<and> one_session (run es1 s) es2"
  by (induction es1 arbitrary: s) auto

section \<open>The turn reconciler\<close>

text \<open>
  Claim C5. A message with \<open>turnComplete\<close> set commits the buffer as it stands once the
  text of the same message (if any) has been taken in: when the trimmed buffer is not
  empty exactly one chunk, with the turn's start time and the trimmed buffer, is
  appended to the chunks; when it is empty the chunks stay as they are. In both cases
  the buffer is cleared and the turn is inactive afterwards. For a message that
  carries no text the buffer and the start time are those of the state before.
\<close>

theorem turn_complete_commits_trimmed_buffer:
  "turnComplete msg \<Longrightarrow>
     (let s1 = onmessage_text msg s; buf = trim (currentTurnRef s1)
      in chunksRef (onmessage msg s) =
           (if buf \<noteq> [] then chunksRef s @ [\<lparr>timestamp = turnStartTimeRef s1, ctext = buf\<rparr>]
            else chunksRef s)
         \<and> currentTurnRef (onmessage msg s) = []
         \<and> \<not> isTurnActiveRef (onmessage msg s))
     \<and> (inputTranscription msg = None \<longrightarrow> onmessage_text msg s = s)"
proof -
  assume tc: "turnComplete msg"
  have commit: "chunksRef (onmessage msg s) =
      (if trim (currentTurnRef (onmessage_text msg s)) \<noteq> []
       then chunksRef s @ [\<lparr>timestamp = turnStartTimeRef (onmessage_text msg s),
                             ctext = trim (currentTurnRef (onmessage_text msg s))\<rparr>]
       else chunksRef s)"
    using tc by (simp add: onmessage_def onmessage_turnComplete_def needsUpdate_def Let_def)
  have cleared: "currentTurnRef (onmessage msg s) = []" "\<not> isTurnActiveRef (onmessage msg s)"
    using tc by (simp_all add: onmessage_def onmessage_turnComplete_def needsUpdate_def Let_def)
  have pure: "inputTranscription msg = None \<longrightarrow> onmessage_text msg s = s"
    by (simp add: onmessage_text_def)
  from commit cleared pure show ?thesis by (simp add: Let_def)
qed

theorem turn_complete_commits_trimmed_buffer_witness:
  "turnComplete \<lparr>inputTranscription = None, turnComplete = True\<rparr>
   \<and> chunksRef (onmessage \<lparr>inputTranscription = None, turnComplete = True\<rparr>
        (initial\<lparr>currentTurnRef := js '' Hello world '', turnStartTimeRef := 3,
                  isTurnActiveRef := True\<rparr>))
       = [\<lparr>timestamp = 3, ctext = js ''Hello world''\<rparr>]
   \<and> chunksRef (onmessage \<lparr>inputTranscription = None, turnComplete = True\<rparr>
        (initial\<lparr>currentTurnRef := js ''  '', turnStartTimeRef := 3,
                  isTurnActiveRef := True\<rparr>)) = []"
  using turn_complete_commits_trimmed_buffer
          [of "\<lparr>inputTranscription = None, turnComplete = True\<rparr>"
              "initial\<lparr>currentTurnRef := js '' Hello world '', turnStartTimeRef := 3,
                  isTurnActiveRef := True\<rparr>"]
        turn_complete_commits_trimmed_buffer
          [of "\<lparr>inputTranscription = None, turnComplete = True\<rparr>"
              "initial\<lparr>currentTurnRef := js ''  '', turnStartTimeRef := 3,
                  isTurnActiveRef := True\<rparr>"]
  by (simp add: initial_def trim_def js_def isWhiteSpace_def onmessage_text_def Let_def)

text \<open>
  Claim C3, as the code has it. The text of a message that begins a new turn loses
  the text of the last committed chunk from its front when that text is longer than
  5 code units (6 or more) and the incoming text starts with it; what remains, with
  any white space it starts with, is appended to the buffer. When the last chunk's
  text has 5 code units or fewer, is not a prefix of the incoming text, or there is no
  chunk, the incoming text is appended unchanged. The turn becomes active and its
  start time is the counter's value. Unless the same message completes the turn, this
  is the buffer after the message.
\<close>

theorem new_turn_strips_long_repeated_prefix:
  "inputTranscription msg = Some txt \<Longrightarrow> txt \<noteq> [] \<Longrightarrow> \<not> isTurnActiveRef s \<Longrightarrow>
   currentTurnRef (onmessage_text msg s) =
     currentTurnRef s @
       (if chunksRef s \<noteq> [] \<and> 5 < length (ctext (last (chunksRef s)))
              \<and> prefix (ctext (last (chunksRef s))) txt
        then drop (length (ctext (last (chunksRef s)))) txt else txt)
   \<and> isTurnActiveRef (onmessage_text msg s)
   \<and> turnStartTimeRef (onmessage_text msg s) = elapsedTimeRef s
   \<and> (\<not> turnComplete msg \<longrightarrow>
        currentTurnRef (onmessage msg s) = currentTurnRef (onmessage_text msg s))"
  by (simp add: onmessage_def onmessage_turnComplete_def needsUpdate_def Let_def
        onmessage_text_def dedup_def)

theorem new_turn_strips_long_repeated_prefix_witness:
  "currentTurnRef (onmessage
      \<lparr>inputTranscription = Some (js ''lecture one continues''), turnComplete = False\<rparr>
      (initial\<lparr>chunksRef := [\<lparr>timestamp = 0, ctext = js ''lecture one''\<rparr>]\<rparr>))
     = js '' continues''"
  using new_turn_strips_long_repeated_prefix
          [of "\<lparr>inputTranscription = Some (js ''lecture one continues''), turnComplete = False\<rparr>"
              "js ''lecture one continues''"
              "initial\<lparr>chunksRef := [\<lparr>timestamp = 0, ctext = js ''lecture one''\<rparr>]\<rparr>"]
  by (simp add: initial_def js_def)


text \<open>
  The claim as the specification words it fails twice. The specification's own example
  leaves the buffer with a leading space, and a chunk text of exactly 5 code units is
  not stripped although the overlap is at least 5 long.
\<close>

theorem dedup_example_counterexample:
  "currentTurnRef (onmessage
      \<lparr>inputTranscription = Some (js ''the mitochondria is the powerhouse''),
       turnComplete = False\<rparr>
      (initial\<lparr>chunksRef := [\<lparr>timestamp = 0, ctext = js ''the mitochondria is''\<rparr>]\<rparr>))
     = js '' the powerhouse''
   \<and> js '' the powerhouse'' \<noteq> js ''the powerhouse''
   \<and> length (js ''hello'') = 5
   \<and> currentTurnRef (onmessage
      \<lparr>inputTranscription = Some (js ''hello world''), turnComplete = False\<rparr>
      (initial\<lparr>chunksRef := [\<lparr>timestamp = 0, ctext = js ''hello''\<rparr>]\<rparr>))
     = js ''hello world''"
  by (simp add: onmessage_def onmessage_turnComplete_def needsUpdate_def Let_def
        onmessage_text_def dedup_def initial_def js_def)

section \<open>Chunks only grow\<close>

lemma step_chunks_prefix:
  "\<not> starts_session e s \<Longrightarrow> prefix (chunksRef s) (chunksRef (step e s))"
  by (cases e)
     (simp_all add: starts_session_def toggleRecording_def handleFinish_chunks onmessage_chunks
        startRecording_granted_def startRecording_denied_def onopen_def onclose_def
        onerror_def tick_def onaudioprocess_def Let_def split: option.splits)

lemma run_chunks_prefix: "one_session s es \<Longrightarrow> prefix (chunksRef s) (chunksRef (run es s))"
proof (induction es arbitrary: s)
  case Nil
  then show ?case by simp
next
  case (Cons e es)
  from Cons.prems have "prefix (chunksRef s) (chunksRef (step e s))"
    by (simp add: step_chunks_prefix)
  moreover from Cons have "prefix (chunksRef (step e s)) (chunksRef (run es (step e s)))"
    by simp
  ultimately show ?case by (auto intro: prefix_order.trans)
qed

text \<open>
  Claim C4. Within one session (no event of the run starts a new recording), the
  chunks after any part \<open>es1\<close> of a run are a prefix of the chunks after the longer run
  \<open>es1 @ es2\<close>: every chunk that was there is still there, at the same position, with
  the same timestamp and text. The events are all of them: messages, ticks, stop,
  close, error, unmount and finish.
\<close>

theorem committed_chunks_append_only:
  "one_session s (es1 @ es2) \<Longrightarrow>
     prefix (chunksRef (run es1 s)) (chunksRef (run (es1 @ es2) s))
     \<and> (\<forall>i < length (chunksRef (run es1 s)).
           chunksRef (run (es1 @ es2) s) ! i = chunksRef (run es1 s) ! i)"
proof -
  assume "one_session s (es1 @ es2)"
  then have "one_session (run es1 s) es2" by (simp add: one_session_append)
  then have p: "prefix (chunksRef (run es1 s)) (chunksRef (run (es1 @ es2) s))"
    by (simp add: run_append run_chunks_prefix)
  then show ?thesis by (auto simp: prefix_def nth_append)
qed

theorem committed_chunks_append_only_witness:
  "one_session (run opened initial) (two_turns @ open_turn_then_finish)
   \<and> chunksRef (run two_turns (run opened initial))
       = [\<lparr>timestamp = 1, ctext = js ''Hello world''\<rparr>]
   \<and> prefix [\<lparr>timestamp = 1, ctext = js ''Hello world''\<rparr>]
        (chunksRef (run (two_turns @ open_turn_then_finish) (run opened initial)))
   \<and> chunksRef (run (two_turns @ open_turn_then_finish) (run opened initial))
       = [\<lparr>timestamp = 1, ctext = js ''Hello world''\<rparr>,
          \<lparr>timestamp = 3, ctext = js ''Next point''\<rparr>]"
proof -
  have one: "one_session (run opened initial) (two_turns @ open_turn_then_finish)"
    by code_simp
  have early: "chunksRef (run two_turns (run opened initial))
       = [\<lparr>timestamp = 1, ctext = js ''Hello world''\<rparr>]"
    by code_simp
  have late: "chunksRef (run (two_turns @ open_turn_then_finish) (run opened initial))
       = [\<lparr>timestamp = 1, ctext = js ''Hello world''\<rparr>,
          \<lparr>timestamp = 3, ctext = js ''Next point''\<rparr>]"
    by code_simp
  from committed_chunks_append_only [OF one] early late one show ?thesis by simp
qed

section \<open>Finishing\<close>

lemma step_elapsed_sync:
  "elapsedTime s = elapsedTimeRef s \<Longrightarrow> elapsedTime (step e s) = elapsedTimeRef (step e s)"
  by (cases e)
     (simp_all add: toggleRecording_def startRecording_def startRecording_granted_def
        startRecording_denied_def onopen_def onclose_def onerror_def tick_def
        onaudioprocess_def Let_def split: option.splits)

lemma run_elapsed_sync:
  "elapsedTime s = elapsedTimeRef s \<Longrightarrow> elapsedTime (run es s) = elapsedTimeRef (run es s)"
  by (induction es arbitrary: s) (simp_all add: step_elapsed_sync)

text \<open>
  Claim C9. In every state the component can reach after it is mounted, the state
  variable \<open>elapsedTime\<close> and the counter of the timer agree, and the result that
  \<open>handleFinish\<close> hands to \<open>onFinish\<close> carries that value as its duration, whatever the
  chunks and their timestamps are. A result is produced whenever there is something
  to save or the user confirms.
\<close>

theorem finish_duration_is_elapsed_seconds:
  "(let s = run es initial
    in elapsedTime s = elapsedTimeRef s
       \<and> (\<forall>r. snd (handleFinish now confirmed s) = Some r \<longrightarrow> duration r = elapsedTimeRef s)
       \<and> (confirmed \<or> chunksRef s \<noteq> [] \<or> trim (currentTurnRef s) \<noteq> []
            \<longrightarrow> snd (handleFinish now confirmed s) \<noteq> None))"
proof -
  have sync: "elapsedTime (run es initial) = elapsedTimeRef (run es initial)"
    by (rule run_elapsed_sync) (simp add: initial_def)
  have dur: "\<forall>r. snd (handleFinish now confirmed (run es initial)) = Some r
                 \<longrightarrow> duration r = elapsedTimeRef (run es initial)"
    using sync handleFinish_result by fastforce
  have ex: "confirmed \<or> chunksRef (run es initial) \<noteq> []
              \<or> trim (currentTurnRef (run es initial)) \<noteq> []
            \<longrightarrow> snd (handleFinish now confirmed (run es initial)) \<noteq> None"
    by (simp add: handleFinish_def Let_def)
  from sync dur ex show ?thesis by (simp add: Let_def)
qed

theorem finish_duration_is_elapsed_seconds_witness:
  "elapsedTimeRef (run lecture initial) = 125
   \<and> map timestamp (chunksRef (run lecture initial)) = [3]
   \<and> (\<exists>r. snd (handleFinish (js ''2025-01-01T10:02:05.000Z'') False (run lecture initial))
             = Some r \<and> duration r = 125)"
proof -
  have e: "elapsedTimeRef (run lecture initial) = 125"
    by code_simp
  have c: "map timestamp (chunksRef (run lecture initial)) = [3]"
    by code_simp
  from c have ne: "chunksRef (run lecture initial) \<noteq> []"
    by auto
  from finish_duration_is_elapsed_seconds
         [of lecture "js ''2025-01-01T10:02:05.000Z''" False] e c ne
  show ?thesis by (auto simp add: Let_def)
qed

text \<open>
  Claim C2 fails on the code when the open turn began before the first tick. The turn
  below is active, began at second 0 and holds "and that concludes"; \<open>handleFinish\<close> at
  second 7 stamps the final chunk with 7, the current counter, not with the turn's
  start 0: \<open>turnStartTimeRef.current || elapsedTimeRef.current\<close> takes a start of 0 for
  no start.
\<close>

theorem finish_in_first_second_turn_uses_elapsed:
  "isTurnActiveRef (run concluding initial)
   \<and> turnStartTimeRef (run concluding initial) = 0
   \<and> elapsedTimeRef (run concluding initial) = 7
   \<and> currentTurnRef (run concluding initial) = js ''and that concludes''
   \<and> map_option chunks
        (snd (handleFinish (js ''2025-01-01T10:00:07.000Z'') False (run concluding initial)))
       = Some [\<lparr>timestamp = 7, ctext = js ''and that concludes''\<rparr>]"
  by code_simp

section \<open>Stopping\<close>

text \<open>
  \<open>stopEverything\<close> twice is \<open>stopEverything\<close> once; after it every ref is \<open>null\<close>,
  \<open>isRecording\<close> is false, and every object the refs named is released; on a stopped
  controller it changes nothing.
\<close>

lemma stop_is_idempotent:
  "stopEverything (stopEverything s) = stopEverything s
   \<and> stopped (stopEverything s)
   \<and> releases s (stopEverything s)
   \<and> (stopped s \<longrightarrow> stopEverything s = s)"
  using stopEverything_noop stopEverything_stopped stopEverything_releases by blast

lemma stop_is_idempotent_example:
  "stopped initial \<and> stopEverything initial = initial
   \<and> timerRef (run opened initial) = Some 4 \<and> 4 \<in> timersActive (run opened initial)
   \<and> 4 \<notin> timersActive (stopEverything (run opened initial))"
proof -
  have a: "stopped initial" by code_simp
  have b: "timerRef (run opened initial) = Some 4" "4 \<in> timersActive (run opened initial)"
    by code_simp+
  from stop_is_idempotent [of initial] stop_is_idempotent [of "run opened initial"] a b
  show ?thesis by (simp add: releases_def)
qed

text \<open>
  Claim C8 fails on the code in the end state it names. Stopping twice does give the
  state of stopping once, but that state is not the one claimed. After two stops of a
  recording session every ref is \<open>null\<close> and no audio object or timer is live, yet
  connection 3 is still open, not closed: the session is dropped, never closed. After
  two stops of a second recording begun after a remote close, the refs are \<open>null\<close>
  as well, yet the first recording's context 1, stream 2, source 5 and processor 6
  are live and its timer 4 still runs (a tick is still counted), and connection 9 is
  open.
\<close>

theorem stop_twice_end_state_keeps_session_and_handles:
  "stopped (stopEverything (stopEverything (run opened initial)))
   \<and> no_open_handles (stopEverything (stopEverything (run opened initial)))
   \<and> conn (stopEverything (run opened initial)) 3 = Some Open
   \<and> conn (stopEverything (stopEverything (run opened initial))) 3 = Some Open
   \<and> isRecording (run restarted initial)
   \<and> stopped (stopEverything (stopEverything (run restarted initial)))
   \<and> ctxOpen (stopEverything (stopEverything (run restarted initial))) = {1}
   \<and> tracksLive (stopEverything (stopEverything (run restarted initial))) = {2}
   \<and> srcConnected (stopEverything (stopEverything (run restarted initial))) = {5}
   \<and> procConnected (stopEverything (stopEverything (run restarted initial))) = {6}
   \<and> timersActive (stopEverything (stopEverything (run restarted initial))) = {4}
   \<and> elapsedTimeRef (step (TimerFired 4)
          (stopEverything (stopEverything (run restarted initial)))) = 1
   \<and> conn (stopEverything (stopEverything (run restarted initial))) 9 = Some Open"
  by code_simp

section \<open>Transport errors\<close>

text \<open>
  When connection \<open>k\<close> is open and fails, \<open>onerror\<close> leaves the chunks and the buffer
  as they were; the connection is in its error state, every ref is \<open>null\<close>, every
  object the refs named is released, and when the refs named all live objects none is
  left. The result of a later \<open>handleFinish\<close>, directly or after any further events of
  the same session, begins with the chunks committed before the failure, and when
  there were any a result is produced.
\<close>

lemma transport_error_keeps_transcript:
  "conn s k = Some Open \<Longrightarrow>
     (let t = step (ConnError k e) s
      in chunksRef t = chunksRef s \<and> currentTurnRef t = currentTurnRef s
         \<and> conn t k = Some Errored
         \<and> stopped t \<and> releases s t \<and> (tracked s \<longrightarrow> no_open_handles t)
         \<and> (\<forall>es now confirmed r.
               one_session t es \<and> snd (handleFinish now confirmed (run es t)) = Some r
               \<longrightarrow> prefix (chunksRef s) (chunks r))
         \<and> (chunksRef s \<noteq> []
              \<longrightarrow> (\<forall>now confirmed. snd (handleFinish now confirmed t) \<noteq> None)))"
proof -
  assume op: "conn s k = Some Open"
  define t where "t = step (ConnError k e) s"
  have t_eq: "t = stopEverything (s\<lparr>conn := (conn s)(k \<mapsto> Errored),
                   error := Some (case e of Some m \<Rightarrow> m
                                  | None \<Rightarrow> js ''Connection error. Please try again.'')\<rparr>)"
    using op by (simp add: t_def live_def onerror_def)
  have data: "chunksRef t = chunksRef s" "currentTurnRef t = currentTurnRef s"
    by (simp_all add: t_eq)
  have cn: "conn t k = Some Errored"
    by (simp add: t_eq)
  have st: "stopped t"
    by (simp add: t_eq stopEverything_stopped)
  have rel: "releases s t"
    by (auto simp add: t_eq releases_def)
  have tr: "tracked s \<longrightarrow> no_open_handles t"
    by (auto simp add: t_eq tracked_def no_open_handles_def)
  have later: "\<forall>es now confirmed r.
               one_session t es \<and> snd (handleFinish now confirmed (run es t)) = Some r
               \<longrightarrow> prefix (chunksRef s) (chunks r)"
  proof (intro allI impI, elim conjE)
    fix es now confirmed r
    assume one: "one_session t es"
      and res: "snd (handleFinish now confirmed (run es t)) = Some r"
    from one have "prefix (chunksRef t) (chunksRef (run es t))"
      by (rule run_chunks_prefix)
    moreover have "prefix (chunksRef (run es t))
                     (chunksRef (fst (handleFinish now confirmed (run es t))))"
      by (simp add: handleFinish_chunks)
    moreover from res have "chunks r = chunksRef (fst (handleFinish now confirmed (run es t)))"
      by (simp add: handleFinish_result)
    ultimately show "prefix (chunksRef s) (chunks r)"
      using data(1) by (metis prefix_order.trans)
  qed
  have ex: "chunksRef s \<noteq> [] \<longrightarrow> (\<forall>now confirmed. snd (handleFinish now confirmed t) \<noteq> None)"
    using data(1) by (simp add: handleFinish_def Let_def)
  from data cn st rel tr later ex show ?thesis
    unfolding t_def [symmetric] Let_def by blast
qed

lemma transport_error_keeps_transcript_example:
  "conn (run (opened @ two_turns) initial) 3 = Some Open
   \<and> tracked (run (opened @ two_turns) initial)
   \<and> chunksRef (run (opened @ two_turns) initial)
       = [\<lparr>timestamp = 1, ctext = js ''Hello world''\<rparr>]
   \<and> no_open_handles (step (ConnError 3 None) (run (opened @ two_turns) initial))
   \<and> (\<exists>r. snd (handleFinish (js ''2025-01-01T10:00:02.000Z'') False
                (step (ConnError 3 None) (run (opened @ two_turns) initial))) = Some r
          \<and> prefix [\<lparr>timestamp = 1, ctext = js ''Hello world''\<rparr>] (chunks r))"
proof -
  let ?s = "run (opened @ two_turns) initial"
  let ?t = "step (ConnError 3 None) ?s"
  let ?now = "js ''2025-01-01T10:00:02.000Z''"
  have op: "conn ?s 3 = Some Open"
    by code_simp
  have tr: "tracked ?s"
    by code_simp
  have ch: "chunksRef ?s = [\<lparr>timestamp = 1, ctext = js ''Hello world''\<rparr>]"
    by code_simp
  note th = transport_error_keeps_transcript [OF op, of None, unfolded Let_def]
  from th tr have noh: "no_open_handles ?t"
    by blast
  from th ch have "snd (handleFinish ?now False ?t) \<noteq> None"
    by simp
  then obtain r where r: "snd (handleFinish ?now False ?t) = Some r"
    by blast
  from th have "one_session ?t [] \<and> snd (handleFinish ?now False (run [] ?t)) = Some r
                  \<longrightarrow> prefix (chunksRef ?s) (chunks r)"
    by blast
  with r ch have "prefix [\<lparr>timestamp = 1, ctext = js ''Hello world''\<rparr>] (chunks r)"
    by simp
  with op tr ch noh r show ?thesis
    by blast
qed

text \<open>
  Claim C6 fails on the code in what is released. The chunks and the buffer are kept
  and come back in the result of a later finish, but not every resource of the failed
  session is released: \<open>stopEverything\<close> releases what the refs name, and a second
  \<open>startRecording\<close>, which the button allows until \<open>onopen\<close> has run, has overwritten
  them. Connection 4, of the first call, is open and fails: the chunk is kept, every
  ref is \<open>null\<close>, the second call's context 2 and stream 5 are released, and the
  failed session's own context 1 and stream 3 stay live; the second call's connection
  6 is still connecting.
\<close>

theorem transport_error_after_double_start_leaves_handles:
  "conn (run double_click_open initial) 4 = Some Open
   \<and> chunksRef (run double_click_open initial)
       = [\<lparr>timestamp = 0, ctext = js ''Hello world''\<rparr>]
   \<and> conn (step (ConnError 4 None) (run double_click_open initial)) 4 = Some Errored
   \<and> chunksRef (step (ConnError 4 None) (run double_click_open initial))
       = [\<lparr>timestamp = 0, ctext = js ''Hello world''\<rparr>]
   \<and> currentTurnRef (step (ConnError 4 None) (run double_click_open initial))
       = currentTurnRef (run double_click_open initial)
   \<and> map_option chunks
        (snd (handleFinish (js ''2025-01-01T10:00:02.000Z'') False
           (step (ConnError 4 None) (run double_click_open initial))))
       = Some [\<lparr>timestamp = 0, ctext = js ''Hello world''\<rparr>]
   \<and> stopped (step (ConnError 4 None) (run double_click_open initial))
   \<and> ctxOpen (step (ConnError 4 None) (run double_click_open initial)) = {1}
   \<and> tracksLive (step (ConnError 4 None) (run double_click_open initial)) = {3}
   \<and> conn (step (ConnError 4 None) (run double_click_open initial)) 6 = Some Connecting"
  by code_simp

section \<open>Exit paths\<close>

text \<open>
  Claim C1 fails on the code. After stop, unmount or finish of a recording session all
  refs are \<open>null\<close> and no audio object or timer is live, but connection 3 is still
  open: \<open>stopEverything\<close> sets \<open>sessionRef.current\<close> to \<open>null\<close> and calls nothing on the
  session. After the remote side closed the connection, \<open>onclose\<close> releases nothing
  (\<open>onerror\<close> does); a second recording then overwrites the refs, and the unmount
  releases the second set only: context 1, stream 2, source 5, processor 6 and timer
  4 stay live. After a cancel while \<open>getUserMedia\<close> is pending, the stream that arrives
  later is stored and kept live, and a connection is started.
\<close>

theorem exit_paths_leave_resources_open:
  "stopped (run (opened @ [ClickMic (js ''2025-01-01T10:00:05.000Z'') True]) initial)
   \<and> no_open_handles (run (opened @ [ClickMic (js ''2025-01-01T10:00:05.000Z'') True]) initial)
   \<and> conn (run (opened @ [ClickMic (js ''2025-01-01T10:00:05.000Z'') True]) initial) 3
       = Some Open
   \<and> conn (run (opened @ [Unmount]) initial) 3 = Some Open
   \<and> conn (run (opened @ [ClickFinish (js ''2025-01-01T10:00:05.000Z'') True]) initial) 3
       = Some Open
   \<and> stopped (run restart_after_remote_close initial)
   \<and> ctxOpen (run restart_after_remote_close initial) = {1}
   \<and> tracksLive (run restart_after_remote_close initial) = {2}
   \<and> srcConnected (run restart_after_remote_close initial) = {5}
   \<and> procConnected (run restart_after_remote_close initial) = {6}
   \<and> timersActive (run restart_after_remote_close initial) = {4}
   \<and> conn (run restart_after_remote_close initial) 9 = Some Open
   \<and> tracksLive (run cancel_while_connecting initial) = {2}
   \<and> conn (run cancel_while_connecting initial) 3 = Some Connecting"
  by code_simp

section \<open>Timestamps\<close>

lemma onmessage_ordered: "timestamps_ordered s \<Longrightarrow> timestamps_ordered (onmessage msg s)"
  by (auto simp add: timestamps_ordered_def onmessage_def onmessage_text_def
        onmessage_turnComplete_def Let_def sorted_append split: option.splits)

lemma handleFinish_declined:
  "snd (handleFinish now confirmed s) = None \<Longrightarrow>
     chunksRef (fst (handleFinish now confirmed s)) = []"
  by (auto simp add: handleFinish_def Let_def split: if_splits)

lemma step_ordered:
  "\<not> starts_session e s \<Longrightarrow> \<not> hands_off e s \<Longrightarrow> timestamps_ordered s \<Longrightarrow>
     timestamps_ordered (step e s)"
proof (cases e)
  case (ConnMessage k msg)
  assume "timestamps_ordered s"
  with ConnMessage show ?thesis by (simp add: onmessage_ordered)
next
  case (ClickMic now hasKey)
  assume "\<not> starts_session e s" "timestamps_ordered s"
  with ClickMic show ?thesis
    by (simp add: starts_session_def toggleRecording_def timestamps_ordered_def)
next
  case (ClickFinish now confirmed)
  assume "\<not> hands_off e s" "timestamps_ordered s"
  with ClickFinish show ?thesis
    by (simp add: hands_off_def timestamps_ordered_def handleFinish_declined)
qed (simp_all add: timestamps_ordered_def startRecording_granted_def startRecording_denied_def
        onopen_def onclose_def onerror_def tick_def onaudioprocess_def Let_def
        split: option.splits)

lemma run_ordered:
  "one_session s es \<Longrightarrow> until_finish s es \<Longrightarrow> timestamps_ordered s \<Longrightarrow>
     timestamps_ordered (run es s)"
  by (induction es arbitrary: s) (simp_all add: step_ordered)

lemma startRecording_ordered: "timestamps_ordered (startRecording now hasKey s)"
  by (simp add: startRecording_def timestamps_ordered_def Let_def)

lemma handleFinish_ordered:
  "timestamps_ordered s \<Longrightarrow>
     sorted (map timestamp (chunksRef (fst (handleFinish now confirmed s))))"
  by (auto simp add: timestamps_ordered_def handleFinish_chunks sorted_append)

text \<open>
  Claim C10. In a session, from \<open>startRecording\<close> through any run of events up to the
  finish that hands the result over, the timestamps of the chunks are natural numbers,
  none beyond the counter, in non-decreasing order; they still are in the chunks after
  \<open>handleFinish\<close> and in the result it produces.
\<close>

theorem chunk_timestamps_nondecreasing:
  "one_session (startRecording now hasKey s) es \<Longrightarrow>
   until_finish (startRecording now hasKey s) es \<Longrightarrow>
     (let t = run es (startRecording now hasKey s)
      in sorted (map timestamp (chunksRef t))
         \<and> (\<forall>c \<in> set (chunksRef t). 0 \<le> timestamp c \<and> timestamp c \<le> elapsedTimeRef t)
         \<and> sorted (map timestamp (chunksRef (fst (handleFinish now' confirmed t))))
         \<and> (\<forall>r. snd (handleFinish now' confirmed t) = Some r
               \<longrightarrow> sorted (map timestamp (chunks r))))"
proof -
  assume one: "one_session (startRecording now hasKey s) es"
    and uf: "until_finish (startRecording now hasKey s) es"
  define t where "t = run es (startRecording now hasKey s)"
  from one uf have ord: "timestamps_ordered t"
    unfolding t_def by (rule run_ordered) (rule startRecording_ordered)
  then have a: "sorted (map timestamp (chunksRef t))"
    and b: "\<forall>c \<in> set (chunksRef t). 0 \<le> timestamp c \<and> timestamp c \<le> elapsedTimeRef t"
    by (auto simp add: timestamps_ordered_def)
  from ord have c: "sorted (map timestamp (chunksRef (fst (handleFinish now' confirmed t))))"
    by (rule handleFinish_ordered)
  then have d: "\<forall>r. snd (handleFinish now' confirmed t) = Some r
               \<longrightarrow> sorted (map timestamp (chunks r))"
    by (simp add: handleFinish_result)
  from a b c d show ?thesis
    unfolding t_def [symmetric] Let_def by blast
qed

theorem chunk_timestamps_nondecreasing_witness:
  "one_session (startRecording (js ''2025-01-01T10:00:00.000Z'') True initial) one_turn_open
   \<and> until_finish (startRecording (js ''2025-01-01T10:00:00.000Z'') True initial) one_turn_open
   \<and> map timestamp (chunksRef (fst (handleFinish (js ''2025-01-01T10:00:03.000Z'') False
        (run one_turn_open (startRecording (js ''2025-01-01T10:00:00.000Z'') True initial)))))
      = [1, 3]
   \<and> sorted [1, 3 :: nat]"
proof -
  let ?s = "startRecording (js ''2025-01-01T10:00:00.000Z'') True initial"
  have one: "one_session ?s one_turn_open"
    by code_simp
  have uf: "until_finish ?s one_turn_open"
    by code_simp
  have ts: "map timestamp (chunksRef (fst (handleFinish (js ''2025-01-01T10:00:03.000Z'') False
        (run one_turn_open ?s)))) = [1, 3]"
    by code_simp
  from chunk_timestamps_nondecreasing [OF one uf, of "js ''2025-01-01T10:00:03.000Z''" False]
    one uf ts
  show ?thesis by (simp add: Let_def)
qed

text \<open>
  Once the result is handed over the session is over, but the callbacks stay
  registered on the connection that was never closed. A turn-complete delivered then
  commits the open turn a second time, with its start time: after the finish of
  \<open>concluding\<close> the chunk list reads 7, 0.
\<close>

lemma message_after_finish_appends_earlier_timestamp:
  "map timestamp (chunksRef (run late_turn_complete initial)) = [7, 0]"
  by code_simp

section \<open>Audio frames\<close>

lemma step_sent:
  "sent (step e s) =
     (case e of
        AudioFrame p \<Rightarrow>
          (if p \<in> procConnected s
           then (case procSession s p of None \<Rightarrow> sent s | Some k \<Rightarrow> sent s @ [k])
           else sent s)
      | _ \<Rightarrow> sent s)"
  by (cases e)
     (simp_all add: toggleRecording_def startRecording_def startRecording_granted_def
        startRecording_denied_def onopen_def onclose_def onerror_def tick_def
        onaudioprocess_def onmessage_def onmessage_text_def onmessage_turnComplete_def
        handleFinish_def Let_def split: option.splits)

lemma step_procSession:
  "procSession (step e s) =
     (case e of
        ConnOpen k \<Rightarrow>
          (if conn s k = Some Connecting then (procSession s)(Suc (Suc (nextId s)) \<mapsto> k)
           else procSession s)
      | _ \<Rightarrow> procSession s)"
  by (cases e)
     (simp_all add: toggleRecording_def startRecording_def startRecording_granted_def
        startRecording_denied_def onopen_def onclose_def onerror_def tick_def
        onaudioprocess_def onmessage_def onmessage_text_def onmessage_turnComplete_def
        handleFinish_def Let_def split: option.splits)

lemma step_procConnected:
  "\<not> opens e \<Longrightarrow> procConnected (step e s) \<subseteq> procConnected s"
  by (cases e)
     (auto simp add: opens_def toggleRecording_def startRecording_def startRecording_granted_def
        startRecording_denied_def onopen_def onclose_def onerror_def tick_def
        onaudioprocess_def onmessage_def onmessage_text_def onmessage_turnComplete_def
        handleFinish_def Let_def split: option.splits)

lemma run_procConnected:
  "\<forall>e \<in> set es. \<not> opens e \<Longrightarrow> procConnected (run es s) \<subseteq> procConnected s"
proof (induction es arbitrary: s)
  case Nil
  then show ?case by simp
next
  case (Cons e es)
  then have "procConnected (run es (step e s)) \<subseteq> procConnected (step e s)" by simp
  moreover from Cons.prems have "procConnected (step e s) \<subseteq> procConnected s"
    by (simp add: step_procConnected)
  ultimately show ?case by auto
qed

lemma step_sent_to:
  "(\<not> b \<longrightarrow> (\<forall>p. procSession s p \<noteq> Some k)) \<Longrightarrow>
     sent_to (step e s) k \<le> sent_to s k + (if is_frame e \<and> b then 1 else 0)"
  by (cases e)
     (auto simp add: sent_to_def step_sent is_frame_def simp del: step.simps
        split: option.splits)

lemma step_no_processor:
  "(\<not> b \<longrightarrow> (\<forall>p. procSession s p \<noteq> Some k)) \<Longrightarrow>
     \<not> (b \<or> (e = ConnOpen k \<and> conn s k = Some Connecting))
       \<longrightarrow> (\<forall>q. procSession (step e s) q \<noteq> Some k)"
  by (cases e) (auto simp add: step_procSession simp del: step.simps)

lemma sent_bound:
  "(\<not> b \<longrightarrow> (\<forall>p. procSession s p \<noteq> Some k)) \<Longrightarrow>
     sent_to (run es s) k \<le> sent_to s k + frames_after_open k b s es"
proof (induction es arbitrary: s b)
  case Nil
  then show ?case by simp
next
  case (Cons e es)
  let ?b = "b \<or> (e = ConnOpen k \<and> conn s k = Some Connecting)"
  from Cons.prems
  have here: "sent_to (step e s) k \<le> sent_to s k + (if is_frame e \<and> b then 1 else 0)"
    by (rule step_sent_to)
  from Cons.prems
  have "\<not> ?b \<longrightarrow> (\<forall>q. procSession (step e s) q \<noteq> Some k)"
    by (rule step_no_processor)
  then have "sent_to (run es (step e s)) k
               \<le> sent_to (step e s) k + frames_after_open k ?b (step e s) es"
    by (rule Cons.IH)
  with here show ?case
    by (simp only: run.simps frames_after_open.simps)
qed

lemma frames_after_open_none:
  "\<forall>e \<in> set es. \<not> opens e \<Longrightarrow> frames_after_open k False s es = 0"
proof (induction es arbitrary: s)
  case Nil
  then show ?case by simp
next
  case (Cons e es)
  from Cons.prems have "e \<noteq> ConnOpen k"
    by (auto simp add: opens_def)
  with Cons show ?case by simp
qed

text \<open>
  Claim C7. From the mount on, in every run, the number of frames sent to a session
  is at most the number of audio buffers that arrived after its connection opened.
  As long as no connection has opened nothing has been sent, and an audio buffer that
  arrives then changes nothing at all: it is neither sent nor kept anywhere.
\<close>

theorem no_audio_sent_before_open:
  "sent_to (run es initial) k \<le> frames_after_open k False initial es
   \<and> ((\<forall>e \<in> set es. \<not> opens e) \<longrightarrow>
        sent (run es initial) = [] \<and> step (AudioFrame p) (run es initial) = run es initial)"
proof -
  have "sent_to (run es initial) k \<le> sent_to initial k + frames_after_open k False initial es"
    by (rule sent_bound) (simp add: initial_def)
  then have bound: "sent_to (run es initial) k \<le> frames_after_open k False initial es"
    by (simp add: sent_to_def initial_def)
  have dropped: "step (AudioFrame p) (run es initial) = run es initial"
    and none: "sent (run es initial) = []"
    if "\<forall>e \<in> set es. \<not> opens e"
  proof -
    from that have "procConnected (run es initial) \<subseteq> procConnected initial"
      by (rule run_procConnected)
    then have "procConnected (run es initial) = {}"
      by (simp add: initial_def)
    then show "step (AudioFrame p) (run es initial) = run es initial"
      by simp
    from that have "frames_after_open j False initial es = 0" for j
      by (rule frames_after_open_none)
    with sent_bound [of False initial _ es] have "sent_to (run es initial) j = 0" for j
      by (simp add: sent_to_def initial_def)
    then have "count_list (sent (run es initial)) j = 0" for j
      by (simp add: sent_to_def)
    then show "sent (run es initial) = []"
      by (metis count_list_0_iff list.set_intros(1) neq_Nil_conv)
  qed
  from bound dropped none show ?thesis by blast
qed

theorem no_audio_sent_before_open_witness:
  "sent (run frames_around_open initial) = [3, 3]
   \<and> sent_to (run frames_around_open initial) 3 = 2
   \<and> frames_after_open 3 False initial frames_around_open = 2
   \<and> filter opens (take 5 frames_around_open) = []
   \<and> sent (run (take 5 frames_around_open) initial) = []
   \<and> step (AudioFrame 6) (run (take 5 frames_around_open) initial)
        = run (take 5 frames_around_open) initial"
proof -
  have a: "sent (run frames_around_open initial) = [3, 3]"
    by code_simp
  have b: "frames_after_open 3 False initial frames_around_open = 2"
    by code_simp
  have c: "\<forall>e \<in> set (take 5 frames_around_open). \<not> opens e"
    by code_simp
  have d: "filter opens (take 5 frames_around_open) = []"
    by code_simp
  from no_audio_sent_before_open [of frames_around_open 3 6]
       no_audio_sent_before_open [of "take 5 frames_around_open" 3 6] a b c d
  show ?thesis by (simp add: sent_to_def)
qed

end
